theory Spec2Isabelle
  imports Complex_Main "HOL-Library.Char_ord" "HOL-Library.List_Lexorder"
begin

section \<open>The Cloud Tasks queue bridge of jan-world\<close>

text \<open>
  A shallow embedding of \<^verbatim>\<open>createQueue\<close> (the queue bridge of the jan-world package):
  the queue-name parser, the table of physical queues, \<^verbatim>\<open>ensureQueue\<close>, \<^verbatim>\<open>queue\<close> and
  \<^verbatim>\<open>processTask\<close>. JavaScript strings are lists of characters; an optional field or
  argument (\<^verbatim>\<open>undefined\<close> when absent) is an \<open>option\<close>; a thrown exception is the
  \<open>Inl\<close> branch of a sum; calls into the external collaborators are appended to a log.
\<close>

subsection \<open>Strings\<close>

text \<open>\<^verbatim>\<open>String.prototype.startsWith\<close> and \<^verbatim>\<open>String.prototype.slice\<close> with one
  non-negative argument.\<close>

definition startsWith :: "string \<Rightarrow> string \<Rightarrow> bool" where
  "startsWith s p \<longleftrightarrow> take (length p) s = p"

definition slice :: "string \<Rightarrow> nat \<Rightarrow> string" where
  "slice s n = drop n s"

text \<open>A template literal \<^verbatim>\<open>`${v}`\<close> of a value that is a string or absent: an absent
  value prints as the nine characters \<^verbatim>\<open>undefined\<close>.\<close>

fun template :: "string option \<Rightarrow> string" where
  "template None = ''undefined''"
| "template (Some s) = s"

text \<open>Truthiness of an optional string: \<^verbatim>\<open>undefined\<close> and the empty string are falsy.\<close>

fun truthy :: "string option \<Rightarrow> bool" where
  "truthy None = False"
| "truthy (Some s) = (s \<noteq> [])"

subsection \<open>Errors\<close>

text \<open>A thrown JavaScript error object: its \<^verbatim>\<open>code\<close> property (absent on a plain
  \<^verbatim>\<open>Error\<close>) and its message.\<close>

datatype thrown = Thrown (code: "int option") (message: string)

subsection \<open>Configuration\<close>

text \<open>A JavaScript number: not-a-number, the two infinities, or a finite value. Every
  finite double is a rational; 0 and -0 are the one value \<open>Finite 0\<close>.\<close>

datatype number = NaN | Infinity | NegativeInfinity | Finite rat

text \<open>Truthiness of an optional number: \<^verbatim>\<open>undefined\<close>, 0, -0 and \<^verbatim>\<open>NaN\<close> are falsy, every
  other number is truthy.\<close>

fun truthyNumber :: "number option \<Rightarrow> bool" where
  "truthyNumber None = False"
| "truthyNumber (Some NaN) = False"
| "truthyNumber (Some (Finite q)) = (q \<noteq> 0)"
| "truthyNumber (Some Infinity) = True"
| "truthyNumber (Some NegativeInfinity) = True"

text \<open>\<^verbatim>\<open>JanWorldConfig\<close> of config.ts.\<close>

record JanWorldConfig =
  connectionString :: string
  gcpProjectId :: string
  gcpLocation :: string
  queuePrefix :: "string option"
  queueConcurrency :: "number option"

subsection \<open>Queue names\<close>

text \<open>The type \<^verbatim>\<open>QueuePrefix\<close> is the union of two string literals.\<close>

datatype QueuePrefix = wkf_workflow | wkf_step

fun prefix_string :: "QueuePrefix \<Rightarrow> string" where
  "prefix_string wkf_workflow = ''__wkf_workflow_''"
| "prefix_string wkf_step = ''__wkf_step_''"

text \<open>The loop of \<^verbatim>\<open>parseQueueName\<close> over its list of prefixes: the first prefix the
  name starts with is returned with the rest of the name; when the list is exhausted the
  function throws \<^verbatim>\<open>new Error(`Invalid queue name: ${name}`)\<close>.\<close>

fun parseLoop :: "QueuePrefix list \<Rightarrow> string \<Rightarrow> thrown + QueuePrefix \<times> string" where
  "parseLoop [] name = Inl (Thrown None (''Invalid queue name: '' @ name))"
| "parseLoop (p # ps) name =
     (if startsWith name (prefix_string p)
      then Inr (p, slice name (length (prefix_string p)))
      else parseLoop ps name)"

definition parseQueueName :: "string \<Rightarrow> thrown + QueuePrefix \<times> string" where
  "parseQueueName name = parseLoop [wkf_step, wkf_workflow] name"

text \<open>\<^verbatim>\<open>const prefix = config.queuePrefix || 'workflow-'\<close>: an absent and an empty
  configured prefix both give the default.\<close>

definition namePrefix :: "JanWorldConfig \<Rightarrow> string" where
  "namePrefix config =
     (if truthy (queuePrefix config) then the (queuePrefix config) else ''workflow-'')"

text \<open>The table \<^verbatim>\<open>Queues\<close>, from namespace prefix to physical queue name.\<close>

fun Queues :: "JanWorldConfig \<Rightarrow> QueuePrefix \<Rightarrow> string" where
  "Queues config wkf_workflow = namePrefix config @ ''flows''"
| "Queues config wkf_step = namePrefix config @ ''steps''"

text \<open>\<^verbatim>\<open>config.queueConcurrency || 10\<close>: a truthy configured value is kept, and an absent
  value, 0 and \<^verbatim>\<open>NaN\<close> give 10.\<close>

definition maxDispatchesPerSecond :: "JanWorldConfig \<Rightarrow> number" where
  "maxDispatchesPerSecond config =
     (if truthyNumber (queueConcurrency config) then the (queueConcurrency config)
      else Finite 10)"

subsection \<open>External calls\<close>

text \<open>The JSON object that \<^verbatim>\<open>queue\<close> puts into the body of the HTTP request. A key whose
  value is \<^verbatim>\<open>undefined\<close> is left out by \<^verbatim>\<open>JSON.stringify\<close>.\<close>

record envelope =
  envId :: string
  envData :: string
  envMessageId :: string
  envIdempotencyKey :: "string option"
  envPrefix :: string

text \<open>The task handed to \<^verbatim>\<open>createTask\<close>; \<open>taskName\<close> is its optional \<^verbatim>\<open>name\<close>.\<close>

record task =
  httpMethod :: string
  url :: string
  headers :: "(string \<times> string) list"
  body :: envelope
  taskName :: "string option"

text \<open>One call into a collaborator: the three operations of the Cloud Tasks client that
  reach the service, and the embedded world's \<^verbatim>\<open>queue\<close> with its queue name, message and
  \<^verbatim>\<open>idempotencyKey\<close> option.\<close>

datatype 'm call =
    GetQueue string
  | CreateQueue string string number
  | CreateTask string task
  | EngineQueue string 'm "string option"

text \<open>What the closure of \<^verbatim>\<open>createQueue\<close> captures besides the configuration: the path
  templates of the client, the outcome of every external call as a function of the calls
  made before it, the codec, the message schema, the ULID generator (the identifier it
  returns at its n-th call) and the environment variable \<^verbatim>\<open>TASK_HANDLER_URL\<close>.
  \<open>deserialize\<close> stands for \<^verbatim>\<open>transport.deserialize\<close> applied to the stream built from
  \<^verbatim>\<open>[payload.data]\<close>.\<close>

record ('m, 'b) deps =
  queuePath :: "string \<Rightarrow> string \<Rightarrow> string \<Rightarrow> string"
  locationPath :: "string \<Rightarrow> string \<Rightarrow> string"
  taskPath :: "string \<Rightarrow> string \<Rightarrow> string \<Rightarrow> string \<Rightarrow> string"
  respond :: "'m call list \<Rightarrow> 'm call \<Rightarrow> thrown + unit"
  serialize :: "'m \<Rightarrow> thrown + string"
  deserialize :: "string option \<Rightarrow> thrown + 'b"
  schemaParse :: "'b \<Rightarrow> thrown + 'm"
  generateMessageId :: "nat \<Rightarrow> string"
  TASK_HANDLER_URL :: "string option"

text \<open>The state threaded through the operations: the log of external calls, oldest first,
  and the number of identifiers drawn from the generator.\<close>

record 'm world =
  calls :: "'m call list"
  generated :: nat

definition perform :: "('m, 'b) deps \<Rightarrow> 'm call \<Rightarrow> 'm world \<Rightarrow> (thrown + unit) \<times> 'm world" where
  "perform d c w = (respond d (calls w) c, w\<lparr>calls := calls w @ [c]\<rparr>)"

subsection \<open>Provisioning\<close>

definition getQueuePath :: "JanWorldConfig \<Rightarrow> ('m, 'b) deps \<Rightarrow> string \<Rightarrow> string" where
  "getQueuePath config d queueName =
     queuePath d (gcpProjectId config) (gcpLocation config) queueName"

text \<open>\<^verbatim>\<open>ensureQueue\<close>: look the queue up; on an error whose code is 5 create it, on any
  other error rethrow.\<close>

definition ensureQueue ::
  "JanWorldConfig \<Rightarrow> ('m, 'b) deps \<Rightarrow> string \<Rightarrow> 'm world \<Rightarrow> (thrown + unit) \<times> 'm world" where
  "ensureQueue config d queueName w =
     (case perform d (GetQueue (getQueuePath config d queueName)) w of
        (Inr _, w1) \<Rightarrow> (Inr (), w1)
      | (Inl error, w1) \<Rightarrow>
          if code error = Some 5
          then perform d
                 (CreateQueue (locationPath d (gcpProjectId config) (gcpLocation config))
                    (getQueuePath config d queueName)
                    (maxDispatchesPerSecond config))
                 w1
          else (Inl error, w1))"

subsection \<open>Dispatch\<close>

text \<open>The options argument of \<^verbatim>\<open>queue\<close>; \<^verbatim>\<open>opts?.idempotencyKey\<close> is absent when the
  argument or the field is.\<close>

record QueueOptions =
  idempotencyKey :: "string option"

fun optsKey :: "QueueOptions option \<Rightarrow> string option" where
  "optsKey None = None"
| "optsKey (Some opts) = idempotencyKey opts"

definition handlerUrl :: "('m, 'b) deps \<Rightarrow> string" where
  "handlerUrl d =
     (if truthy (TASK_HANDLER_URL d) then the (TASK_HANDLER_URL d)
      else ''http://localhost:3000/api/tasks'')"

text \<open>\<^verbatim>\<open>queue\<close>: parse the name, ensure the physical queue, serialize the message, draw a
  message identifier, build the task and submit it, named when the idempotency key is
  truthy. The result is the \<^verbatim>\<open>messageId\<close>.\<close>

definition queue ::
  "JanWorldConfig \<Rightarrow> ('m, 'b) deps \<Rightarrow> string \<Rightarrow> 'm \<Rightarrow> QueueOptions option \<Rightarrow> 'm world
     \<Rightarrow> (thrown + string) \<times> 'm world" where
  "queue config d qname msg opts w =
     (case parseQueueName qname of
        Inl e \<Rightarrow> (Inl e, w)
      | Inr (prefix, queueId) \<Rightarrow>
          let jobName = Queues config prefix in
          (case ensureQueue config d jobName w of
             (Inl e, w1) \<Rightarrow> (Inl e, w1)
           | (Inr _, w1) \<Rightarrow>
               (case serialize d msg of
                  Inl e \<Rightarrow> (Inl e, w1)
                | Inr data \<Rightarrow>
                    let messageId = ''msg_'' @ generateMessageId d (generated w1);
                        w2 = w1\<lparr>generated := Suc (generated w1)\<rparr>;
                        queuePath = getQueuePath config d jobName;
                        task = \<lparr>httpMethod = ''POST'',
                                url = handlerUrl d,
                                headers = [(''Content-Type'', ''application/json'')],
                                body = \<lparr>envId = queueId, envData = data,
                                         envMessageId = messageId,
                                         envIdempotencyKey = optsKey opts,
                                         envPrefix = prefix_string prefix\<rparr>,
                                taskName = None\<rparr>;
                        submitted =
                          (if truthy (optsKey opts)
                           then task\<lparr>taskName :=
                                  Some (taskPath d (gcpProjectId config) (gcpLocation config)
                                          jobName (the (optsKey opts)))\<rparr>
                           else task)
                    in (case perform d (CreateTask queuePath submitted) w2 of
                          (Inl e, w3) \<Rightarrow> (Inl e, w3)
                        | (Inr _, w3) \<Rightarrow> (Inr messageId, w3)))))"

subsection \<open>Delivery\<close>

text \<open>The object \<^verbatim>\<open>processTask\<close> receives at run time (the parsed JSON body of the
  delivery request): each field is a string or absent.\<close>

record payload =
  payloadId :: "string option"
  payloadData :: "string option"
  payloadMessageId :: "string option"
  payloadIdempotencyKey :: "string option"
  payloadPrefix :: "string option"

text \<open>\<^verbatim>\<open>processTask\<close>: deserialize the body, validate it against the schema, build the
  queue name with a template literal and call the embedded world's \<^verbatim>\<open>queue\<close>.\<close>

definition processTask ::
  "('m, 'b) deps \<Rightarrow> payload \<Rightarrow> 'm world \<Rightarrow> (thrown + unit) \<times> 'm world" where
  "processTask d p w =
     (case deserialize d (payloadData p) of
        Inl e \<Rightarrow> (Inl e, w)
      | Inr b \<Rightarrow>
          (case schemaParse d b of
             Inl e \<Rightarrow> (Inl e, w)
           | Inr msg \<Rightarrow>
               let queueName = template (payloadPrefix p) @ template (payloadId p)
               in perform d (EngineQueue queueName msg (payloadIdempotencyKey p)) w))"

subsection \<open>The identity generator\<close>

text \<open>Modelled from the spec: the alphabet of the identifiers that \<^verbatim>\<open>monotonicFactory\<close> of the
  ulid package returns; the package is not among the sources. The spec calls the
  identifier a ULID and lexicographically sortable: its characters are the 32 digits of
  Crockford's base 32, in increasing order.\<close>

definition ENCODING :: string where
  "ENCODING = ''0123456789ABCDEFGHJKMNPQRSTVWXYZ''"

text \<open>Modelled from the spec: one digit of a ULID, absent from the sources like the rest of
  the generator.\<close>

definition digit :: "nat \<Rightarrow> char" where
  "digit v = ENCODING ! (v mod 32)"

text \<open>Modelled from the spec: a component of a ULID, absent from the sources, written with a
  fixed number of digits, most significant first, so that the order of the strings is
  the order of the values.\<close>

fun encode :: "nat \<Rightarrow> nat \<Rightarrow> string" where
  "encode 0 v = []"
| "encode (Suc len) v = encode len (v div 32) @ [digit v]"

text \<open>Modelled from the spec: the state of one generator instance, absent from the sources:
  the time component of the last identifier and the internal monotonic counter that
  breaks ties.\<close>

record ulidState =
  lastTime :: nat
  lastCounter :: nat

text \<open>Modelled from the spec: the identifier of a state, absent from the sources: the time
  component in 10 digits followed by the tie-break component in 16 digits, the layout
  of a ULID.\<close>

definition ulidOf :: "ulidState \<Rightarrow> string" where
  "ulidOf st = encode 10 (lastTime st) @ encode 16 (lastCounter st)"

text \<open>Modelled from the spec: one call of the generator that \<^verbatim>\<open>monotonicFactory()\<close> returns,
  absent from the sources. The clock reading in milliseconds is a parameter. A reading
  later than the last time component starts a new time component with the counter at 0;
  any other reading (the same millisecond, or a clock that went back) keeps the time
  component and increments the counter.\<close>

definition monotonicUlid :: "nat \<Rightarrow> ulidState \<Rightarrow> string \<times> ulidState" where
  "monotonicUlid now st =
     (let st' = (if lastTime st < now then \<lparr>lastTime = now, lastCounter = 0\<rparr>
                 else st\<lparr>lastCounter := Suc (lastCounter st)\<rparr>)
      in (ulidOf st', st'))"

text \<open>The state of a generator instance after its first n calls, and the identifier its
  call number n returns, when the clock reads \<open>clock k\<close> at call number k.\<close>

fun stateAfter :: "(nat \<Rightarrow> nat) \<Rightarrow> nat \<Rightarrow> ulidState" where
  "stateAfter clock 0 = \<lparr>lastTime = 0, lastCounter = 0\<rparr>"
| "stateAfter clock (Suc n) = snd (monotonicUlid (clock n) (stateAfter clock n))"

definition nthUlid :: "(nat \<Rightarrow> nat) \<Rightarrow> nat \<Rightarrow> string" where
  "nthUlid clock n = fst (monotonicUlid (clock n) (stateAfter clock n))"

text \<open>The order of generator states: by time component, then by counter.\<close>

definition stateLess :: "ulidState \<Rightarrow> ulidState \<Rightarrow> bool" where
  "stateLess a b \<longleftrightarrow>
     lastTime a < lastTime b \<or> (lastTime a = lastTime b \<and> lastCounter a < lastCounter b)"

subsection \<open>Dispatch calls in sequence\<close>

text \<open>Dispatch calls that do not overlap: each call of \<^verbatim>\<open>queue\<close> starts in the state the
  call before it left, whether that call returned or threw. The outcomes are kept in call
  order.\<close>

fun dispatchAll ::
  "JanWorldConfig \<Rightarrow> ('m, 'b) deps \<Rightarrow> (string \<times> 'm \<times> QueueOptions option) list \<Rightarrow> 'm world
     \<Rightarrow> (thrown + string) list \<times> 'm world" where
  "dispatchAll config d [] w = ([], w)"
| "dispatchAll config d ((qname, msg, opts) # rest) w =
     (case queue config d qname msg opts w of
        (r, w1) \<Rightarrow>
          (case dispatchAll config d rest w1 of
             (rs, w2) \<Rightarrow> (r # rs, w2)))"

text \<open>The message identifiers that the calls returned, in call order.\<close>

fun messageIds :: "(thrown + string) list \<Rightarrow> string list" where
  "messageIds [] = []"
| "messageIds (Inl e # rs) = messageIds rs"
| "messageIds (Inr messageId # rs) = messageId # messageIds rs"

subsection \<open>Observations on the call log\<close>

fun isCreateQueue :: "'m call \<Rightarrow> bool" where
  "isCreateQueue (CreateQueue parent path rate) = True"
| "isCreateQueue _ = False"

definition createCalls :: "'m call list \<Rightarrow> nat" where
  "createCalls tr = length (filter isCreateQueue tr)"

subsection \<open>Concrete instances\<close>

text \<open>The instances below are the inputs at which the theorems are evaluated. The path
  templates are those of the Cloud Tasks client; the codec is the identity on strings.\<close>

definition exampleConfig :: JanWorldConfig where
  "exampleConfig =
     \<lparr>connectionString = ''postgres://localhost/workflow'', gcpProjectId = ''acme'',
      gcpLocation = ''us-central1'', queuePrefix = None, queueConcurrency = None\<rparr>"

definition cloudQueuePath :: "string \<Rightarrow> string \<Rightarrow> string \<Rightarrow> string" where
  "cloudQueuePath project location q =
     ''projects/'' @ project @ ''/locations/'' @ location @ ''/queues/'' @ q"

definition cloudLocationPath :: "string \<Rightarrow> string \<Rightarrow> string" where
  "cloudLocationPath project location = ''projects/'' @ project @ ''/locations/'' @ location"

definition cloudTaskPath :: "string \<Rightarrow> string \<Rightarrow> string \<Rightarrow> string \<Rightarrow> string" where
  "cloudTaskPath project location q t = cloudQueuePath project location q @ ''/tasks/'' @ t"

fun createsQueue :: "string \<Rightarrow> 'm call \<Rightarrow> bool" where
  "createsQueue path (CreateQueue parent name rate) = (name = path)"
| "createsQueue path _ = False"

text \<open>A service that starts with no queue: a lookup fails with code 5 until a create call
  for the path is in the log, a create call for a path already created fails with code 6,
  and every other call succeeds.\<close>

fun emptyCloud :: "'m call list \<Rightarrow> 'm call \<Rightarrow> thrown + unit" where
  "emptyCloud tr (GetQueue path) =
     (if list_ex (createsQueue path) tr then Inr () else Inl (Thrown (Some 5) ''NOT_FOUND''))"
| "emptyCloud tr (CreateQueue parent path rate) =
     (if list_ex (createsQueue path) tr then Inl (Thrown (Some 6) ''ALREADY_EXISTS'')
      else Inr ())"
| "emptyCloud tr (CreateTask parent t) = Inr ()"
| "emptyCloud tr (EngineQueue n m k) = Inr ()"

text \<open>A service on which every lookup fails with code 5 and every create call is refused
  with code 7.\<close>

fun denyingCloud :: "'m call list \<Rightarrow> 'm call \<Rightarrow> thrown + unit" where
  "denyingCloud tr (GetQueue path) = Inl (Thrown (Some 5) ''NOT_FOUND'')"
| "denyingCloud tr (CreateQueue parent path rate) = Inl (Thrown (Some 7) ''PERMISSION_DENIED'')"
| "denyingCloud tr (CreateTask parent t) = Inr ()"
| "denyingCloud tr (EngineQueue n m k) = Inr ()"

text \<open>A service on which every lookup fails with code 14.\<close>

fun unavailableCloud :: "'m call list \<Rightarrow> 'm call \<Rightarrow> thrown + unit" where
  "unavailableCloud tr (GetQueue path) = Inl (Thrown (Some 14) ''UNAVAILABLE'')"
| "unavailableCloud tr c = Inr ()"

fun exampleDeserialize :: "string option \<Rightarrow> thrown + string" where
  "exampleDeserialize None = Inl (Thrown None ''Unexpected end of JSON input'')"
| "exampleDeserialize (Some s) = Inr s"

definition exampleDeps ::
  "(string call list \<Rightarrow> string call \<Rightarrow> thrown + unit) \<Rightarrow> (string, string) deps" where
  "exampleDeps service =
     \<lparr>queuePath = cloudQueuePath, locationPath = cloudLocationPath, taskPath = cloudTaskPath,
      respond = service, serialize = Inr, deserialize = exampleDeserialize,
      schemaParse = Inr, generateMessageId = (\<lambda>n. ''01AB'' @ replicate n CHR ''Z''),
      TASK_HANDLER_URL = None\<rparr>"

text \<open>A message schema that accepts one message only.\<close>

definition strictSchema :: "string \<Rightarrow> thrown + string" where
  "strictSchema b = (if b = ''hello'' then Inr b else Inl (Thrown None ''Invalid message''))"

definition emptyWorld :: "string world" where
  "emptyWorld = \<lparr>calls = [], generated = 0\<rparr>"

text \<open>The state after the steps queue has been created.\<close>

definition afterEnsure :: "string world" where
  "afterEnsure =
     \<lparr>calls =
        [GetQueue ''projects/acme/locations/us-central1/queues/workflow-steps'',
         CreateQueue ''projects/acme/locations/us-central1''
           ''projects/acme/locations/us-central1/queues/workflow-steps'' (Finite 10)],
      generated = 0\<rparr>"

text \<open>The state after a first dispatch to a step queue with the idempotency key
  \<^verbatim>\<open>k1\<close>.\<close>

definition afterFirst :: "string world" where
  "afterFirst =
     snd (queue exampleConfig (exampleDeps emptyCloud) ''__wkf_step_abc123'' ''hello''
            (Some \<lparr>idempotencyKey = Some ''k1''\<rparr>) emptyWorld)"

definition examplePayload :: payload where
  "examplePayload =
     \<lparr>payloadId = Some ''abc123'', payloadData = Some ''hello'',
      payloadMessageId = Some ''msg_01AB'', payloadIdempotencyKey = Some ''k1'',
      payloadPrefix = Some ''__wkf_step_''\<rparr>"

text \<open>A clock that reads 7 at the first call and 5 at every later one, and the
  collaborators with the modelled generator on that clock.\<close>

definition backwardClock :: "nat \<Rightarrow> nat" where
  "backwardClock n = (if n = 0 then 7 else 5)"

definition tickingDeps :: "(nat \<Rightarrow> nat) \<Rightarrow> (string, string) deps" where
  "tickingDeps clock = (exampleDeps emptyCloud)\<lparr>generateMessageId := nthUlid clock\<rparr>"

definition exampleRequests :: "(string \<times> string \<times> QueueOptions option) list" where
  "exampleRequests =
     [(''__wkf_step_abc123'', ''hello'', None), (''__wkf_workflow_run1'', ''again'', None)]"

section \<open>Properties\<close>

subsection \<open>The queue-name parser\<close>

lemma parseLoop_roundtrip:
  "parseLoop ps name = Inr (p, s) \<Longrightarrow> prefix_string p @ s = name"
proof (induction ps)
  case Nil
  then show ?case by simp
next
  case (Cons q qs)
  show ?case
  proof (cases "startsWith name (prefix_string q)")
    case True
    with Cons.prems have "p = q" and "s = drop (length (prefix_string q)) name"
      by (auto simp add: slice_def)
    moreover from True have "take (length (prefix_string q)) name = prefix_string q"
      by (simp add: startsWith_def)
    ultimately show ?thesis
      by (metis append_take_drop_id)
  next
    case False
    with Cons show ?thesis by simp
  qed
qed

lemma parseLoop_found:
  "q \<in> set ps \<Longrightarrow> startsWith name (prefix_string q) \<Longrightarrow> \<exists>p s. parseLoop ps name = Inr (p, s)"
  by (induction ps) auto

lemma parseLoop_none:
  "(\<And>q. q \<in> set ps \<Longrightarrow> \<not> startsWith name (prefix_string q)) \<Longrightarrow>
   parseLoop ps name = Inl (Thrown None (''Invalid queue name: '' @ name))"
  by (induction ps) auto

text \<open>
  Claim C1. A queue name that starts with \<^verbatim>\<open>__wkf_workflow_\<close> or \<^verbatim>\<open>__wkf_step_\<close> is
  parsed into a prefix and a suffix id, and the string of the prefix followed by the
  suffix id is the queue name again.
\<close>

theorem parseQueueName_roundtrip:
  assumes "startsWith name ''__wkf_workflow_'' \<or> startsWith name ''__wkf_step_''"
  shows "\<exists>p s. parseQueueName name = Inr (p, s) \<and> prefix_string p @ s = name"
proof -
  from assms have "\<exists>q \<in> set [wkf_step, wkf_workflow]. startsWith name (prefix_string q)"
    by auto
  then obtain q where "q \<in> set [wkf_step, wkf_workflow]" "startsWith name (prefix_string q)"
    by blast
  then obtain p s where "parseLoop [wkf_step, wkf_workflow] name = Inr (p, s)"
    using parseLoop_found by blast
  then show ?thesis
    unfolding parseQueueName_def using parseLoop_roundtrip by blast
qed

theorem parseQueueName_roundtrip_witness:
  "startsWith ''__wkf_step_abc123'' ''__wkf_step_'' \<and>
   parseQueueName ''__wkf_step_abc123'' = Inr (wkf_step, ''abc123'') \<and>
   prefix_string wkf_step @ ''abc123'' = ''__wkf_step_abc123''"
  using parseQueueName_roundtrip [of "''__wkf_step_abc123''"]
  by (simp add: startsWith_def parseQueueName_def slice_def)

subsection \<open>The shape of \<open>ensureQueue\<close>\<close>

lemma ensureQueue_found:
  "respond d (calls w) (GetQueue (getQueuePath config d queueName)) = Inr u \<Longrightarrow>
   ensureQueue config d queueName w =
     (Inr (), w\<lparr>calls := calls w @ [GetQueue (getQueuePath config d queueName)]\<rparr>)"
  by (simp add: ensureQueue_def perform_def)

lemma ensureQueue_not_found:
  "respond d (calls w) (GetQueue (getQueuePath config d queueName)) = Inl error \<Longrightarrow>
   code error = Some 5 \<Longrightarrow>
   ensureQueue config d queueName w =
     (respond d (calls w @ [GetQueue (getQueuePath config d queueName)])
        (CreateQueue (locationPath d (gcpProjectId config) (gcpLocation config))
           (getQueuePath config d queueName) (maxDispatchesPerSecond config)),
      w\<lparr>calls := calls w @
         [GetQueue (getQueuePath config d queueName),
          CreateQueue (locationPath d (gcpProjectId config) (gcpLocation config))
            (getQueuePath config d queueName) (maxDispatchesPerSecond config)]\<rparr>)"
  by (simp add: ensureQueue_def perform_def)

lemma ensureQueue_other:
  "respond d (calls w) (GetQueue (getQueuePath config d queueName)) = Inl error \<Longrightarrow>
   code error \<noteq> Some 5 \<Longrightarrow>
   ensureQueue config d queueName w =
     (Inl error, w\<lparr>calls := calls w @ [GetQueue (getQueuePath config d queueName)]\<rparr>)"
  by (simp add: ensureQueue_def perform_def)

lemma truthyNumber_cases:
  "truthyNumber v \<longleftrightarrow> \<not> (v = None \<or> v = Some NaN \<or> v = Some (Finite 0))"
  by (cases v rule: truthyNumber.cases) simp_all

lemma maxDispatchesPerSecond_cases:
  "maxDispatchesPerSecond config =
     (if queueConcurrency config = None \<or> queueConcurrency config = Some NaN \<or>
         queueConcurrency config = Some (Finite 0)
      then Finite 10 else the (queueConcurrency config))"
  by (simp add: maxDispatchesPerSecond_def truthyNumber_cases)

lemma maxDispatchesPerSecond_NaN:
  "maxDispatchesPerSecond (config\<lparr>queueConcurrency := Some NaN\<rparr>) = Finite 10"
  by (simp add: maxDispatchesPerSecond_def)

lemmas example_defs =
  exampleConfig_def exampleDeps_def emptyWorld_def getQueuePath_def cloudQueuePath_def
  cloudLocationPath_def cloudTaskPath_def

lemma emptyCloud_remembers:
  "(emptyCloud tr (GetQueue path) = Inr () \<longrightarrow>
      emptyCloud (tr @ [GetQueue path]) (GetQueue path) = Inr ()) \<and>
   (emptyCloud tr (CreateQueue parent path rate) = Inr () \<longrightarrow>
      emptyCloud (tr @ [CreateQueue parent path rate]) (GetQueue path) = Inr ())"
  by (simp add: list_ex_iff)

subsection \<open>Dispatch to an unrecognized queue name\<close>

text \<open>
  Claim C6. For a queue name that starts with neither recognized prefix, \<^verbatim>\<open>queue\<close>
  throws the error \<^verbatim>\<open>Invalid queue name: ...\<close> and leaves the state as it was: no queue
  lookup, no queue creation and no task submission is logged, and no physical queue is
  chosen.
\<close>

theorem queue_invalid_name:
  assumes "\<not> startsWith qname ''__wkf_workflow_''" and "\<not> startsWith qname ''__wkf_step_''"
  shows "queue config d qname msg opts w =
           (Inl (Thrown None (''Invalid queue name: '' @ qname)), w)"
proof -
  have "parseQueueName qname = Inl (Thrown None (''Invalid queue name: '' @ qname))"
    unfolding parseQueueName_def using assms by (intro parseLoop_none) auto
  then show ?thesis by (simp add: queue_def)
qed

theorem queue_invalid_name_witness:
  "\<not> startsWith ''my_queue'' ''__wkf_workflow_'' \<and>
   \<not> startsWith ''my_queue'' ''__wkf_step_'' \<and>
   queue exampleConfig (exampleDeps emptyCloud) ''my_queue'' ''hello'' None emptyWorld =
     (Inl (Thrown None ''Invalid queue name: my_queue''), emptyWorld)"
  using queue_invalid_name [of "''my_queue''" exampleConfig "exampleDeps emptyCloud"
      "''hello''" None emptyWorld]
  by (simp add: startsWith_def)

subsection \<open>Provisioning twice\<close>

text \<open>
  Claim C9. Take a service on which a queue that a lookup has just found, or a create call
  has just created, is found by the next lookup. When a first call of \<^verbatim>\<open>ensureQueue\<close>
  returns normally (it found the queue or created it), a second call on the same name
  right after it makes the lookup only and returns normally, and the two calls together
  hold at most one create call.
\<close>

theorem ensureQueue_twice:
  assumes remembers:
    "\<forall>tr path parent rate.
       (respond d tr (GetQueue path) = Inr () \<longrightarrow>
          respond d (tr @ [GetQueue path]) (GetQueue path) = Inr ()) \<and>
       (respond d tr (CreateQueue parent path rate) = Inr () \<longrightarrow>
          respond d (tr @ [CreateQueue parent path rate]) (GetQueue path) = Inr ())"
    and first: "ensureQueue config d queueName w = (Inr (), w1)"
  shows "ensureQueue config d queueName w1 =
           (Inr (), w1\<lparr>calls := calls w1 @ [GetQueue (getQueuePath config d queueName)]\<rparr>) \<and>
         createCalls (drop (length (calls w))
           (calls w1 @ [GetQueue (getQueuePath config d queueName)])) \<le> 1"
proof (cases "respond d (calls w) (GetQueue (getQueuePath config d queueName))")
  case (Inr u)
  let ?get = "GetQueue (getQueuePath config d queueName)"
  from Inr first have w1: "w1 = w\<lparr>calls := calls w @ [?get]\<rparr>"
    by (simp add: ensureQueue_found)
  from Inr remembers have "respond d (calls w @ [?get]) ?get = Inr ()"
    by simp
  with w1 have "respond d (calls w1) ?get = Inr ()"
    by simp
  then have "ensureQueue config d queueName w1 = (Inr (), w1\<lparr>calls := calls w1 @ [?get]\<rparr>)"
    by (rule ensureQueue_found)
  moreover from w1 have "createCalls (drop (length (calls w)) (calls w1 @ [?get])) = 0"
    by (simp add: createCalls_def)
  ultimately show ?thesis by simp
next
  case (Inl error)
  let ?get = "GetQueue (getQueuePath config d queueName)"
  let ?create = "CreateQueue (locationPath d (gcpProjectId config) (gcpLocation config))
                   (getQueuePath config d queueName) (maxDispatchesPerSecond config)"
  have five: "code error = Some 5"
  proof (rule ccontr)
    assume "code error \<noteq> Some 5"
    with Inl first show False by (simp add: ensureQueue_other)
  qed
  from Inl five first have created: "respond d (calls w @ [?get]) ?create = Inr ()"
    and w1: "w1 = w\<lparr>calls := calls w @ [?get, ?create]\<rparr>"
    by (simp_all add: ensureQueue_not_found)
  from created remembers have "respond d ((calls w @ [?get]) @ [?create]) ?get = Inr ()"
    by blast
  with w1 have "respond d (calls w1) ?get = Inr ()"
    by simp
  then have "ensureQueue config d queueName w1 = (Inr (), w1\<lparr>calls := calls w1 @ [?get]\<rparr>)"
    by (rule ensureQueue_found)
  moreover from w1 have "createCalls (drop (length (calls w)) (calls w1 @ [?get])) = 1"
    by (simp add: createCalls_def)
  ultimately show ?thesis by simp
qed

theorem ensureQueue_twice_witness:
  "ensureQueue exampleConfig (exampleDeps emptyCloud) ''workflow-flows'' emptyWorld =
     (Inr (),
      \<lparr>calls =
         [GetQueue ''projects/acme/locations/us-central1/queues/workflow-flows'',
          CreateQueue ''projects/acme/locations/us-central1''
            ''projects/acme/locations/us-central1/queues/workflow-flows'' (Finite 10)],
       generated = 0\<rparr>) \<and>
   ensureQueue exampleConfig (exampleDeps emptyCloud) ''workflow-flows''
     \<lparr>calls =
        [GetQueue ''projects/acme/locations/us-central1/queues/workflow-flows'',
         CreateQueue ''projects/acme/locations/us-central1''
           ''projects/acme/locations/us-central1/queues/workflow-flows'' (Finite 10)],
      generated = 0\<rparr> =
     (Inr (),
      \<lparr>calls =
         [GetQueue ''projects/acme/locations/us-central1/queues/workflow-flows'',
          CreateQueue ''projects/acme/locations/us-central1''
            ''projects/acme/locations/us-central1/queues/workflow-flows'' (Finite 10),
          GetQueue ''projects/acme/locations/us-central1/queues/workflow-flows''],
       generated = 0\<rparr>) \<and>
   createCalls
     ([GetQueue ''projects/acme/locations/us-central1/queues/workflow-flows'',
       CreateQueue ''projects/acme/locations/us-central1''
         ''projects/acme/locations/us-central1/queues/workflow-flows'' (Finite 10),
       GetQueue ''projects/acme/locations/us-central1/queues/workflow-flows'']
      :: string call list) \<le> 1"
proof -
  let ?d = "exampleDeps emptyCloud :: (string, string) deps"
  let ?w1 = "\<lparr>calls =
        [GetQueue ''projects/acme/locations/us-central1/queues/workflow-flows'',
         CreateQueue ''projects/acme/locations/us-central1''
           ''projects/acme/locations/us-central1/queues/workflow-flows'' (Finite 10)],
      generated = 0\<rparr> :: string world"
  have remembers:
    "\<forall>tr path parent rate.
       (respond ?d tr (GetQueue path) = Inr () \<longrightarrow>
          respond ?d (tr @ [GetQueue path]) (GetQueue path) = Inr ()) \<and>
       (respond ?d tr (CreateQueue parent path rate) = Inr () \<longrightarrow>
          respond ?d (tr @ [CreateQueue parent path rate]) (GetQueue path) = Inr ())"
    using emptyCloud_remembers by (simp add: exampleDeps_def)
  have first: "ensureQueue exampleConfig ?d ''workflow-flows'' emptyWorld = (Inr (), ?w1)"
    by (simp add: ensureQueue_def perform_def maxDispatchesPerSecond_def example_defs)
  have path: "getQueuePath exampleConfig ?d ''workflow-flows'' =
      ''projects/acme/locations/us-central1/queues/workflow-flows''"
    by (simp add: example_defs)
  have start: "calls emptyWorld = []"
    by (simp add: emptyWorld_def)
  from ensureQueue_twice [OF remembers first] have
    "ensureQueue exampleConfig ?d ''workflow-flows'' ?w1 =
       (Inr (), ?w1\<lparr>calls := calls ?w1 @
          [GetQueue ''projects/acme/locations/us-central1/queues/workflow-flows'']\<rparr>)"
    and "createCalls (calls ?w1 @
          [GetQueue ''projects/acme/locations/us-central1/queues/workflow-flows'']) \<le> 1"
    unfolding path start by simp_all
  with first show ?thesis
    by simp
qed

subsection \<open>Physical queue names\<close>

text \<open>
  Claim C8, as stated, fails for a configured prefix that is the empty string: the claim
  gives the workflow kind the name \<^verbatim>\<open>flows\<close>, the table gives it \<^verbatim>\<open>workflow-flows\<close>.
\<close>

theorem Queues_empty_prefix_counterexample:
  "queuePrefix (exampleConfig\<lparr>queuePrefix := Some ''''\<rparr>) = Some '''' \<and>
   Queues (exampleConfig\<lparr>queuePrefix := Some ''''\<rparr>) wkf_workflow = ''workflow-flows'' \<and>
   Queues (exampleConfig\<lparr>queuePrefix := Some ''''\<rparr>) wkf_workflow \<noteq> '''' @ ''flows''"
  by (simp add: namePrefix_def exampleConfig_def)

text \<open>
  Claim C8, amended. The physical queue name of a kind is a function of the configuration:
  a configured prefix that is not empty, followed by \<^verbatim>\<open>flows\<close> for the workflow kind and by
  \<^verbatim>\<open>steps\<close> for the step kind; with no configured prefix, or an empty one, the prefix is
  \<^verbatim>\<open>workflow-\<close>. The two kinds never share a name.
\<close>

theorem Queues_names:
  "(queuePrefix config = None \<or> queuePrefix config = Some [] \<longrightarrow>
      Queues config wkf_workflow = ''workflow-flows'' \<and>
      Queues config wkf_step = ''workflow-steps'') \<and>
   (\<forall>p. queuePrefix config = Some p \<and> p \<noteq> [] \<longrightarrow>
      Queues config wkf_workflow = p @ ''flows'' \<and> Queues config wkf_step = p @ ''steps'') \<and>
   Queues config wkf_workflow \<noteq> Queues config wkf_step"
  by (auto simp add: namePrefix_def)

theorem Queues_names_witness:
  "queuePrefix exampleConfig = None \<and>
   Queues exampleConfig wkf_workflow = ''workflow-flows'' \<and>
   Queues exampleConfig wkf_step = ''workflow-steps'' \<and>
   queuePrefix (exampleConfig\<lparr>queuePrefix := Some ''jobs-''\<rparr>) = Some ''jobs-'' \<and>
   ''jobs-'' \<noteq> [] \<and>
   Queues (exampleConfig\<lparr>queuePrefix := Some ''jobs-''\<rparr>) wkf_workflow = ''jobs-flows'' \<and>
   Queues (exampleConfig\<lparr>queuePrefix := Some ''jobs-''\<rparr>) wkf_step = ''jobs-steps''"
proof -
  have none: "queuePrefix exampleConfig = None"
    by (simp add: exampleConfig_def)
  have some: "queuePrefix (exampleConfig\<lparr>queuePrefix := Some ''jobs-''\<rparr>) = Some ''jobs-''"
    by simp
  from Queues_names [of exampleConfig] none
  have "Queues exampleConfig wkf_workflow = ''workflow-flows'' \<and>
        Queues exampleConfig wkf_step = ''workflow-steps''"
    by blast
  moreover from Queues_names [of "exampleConfig\<lparr>queuePrefix := Some ''jobs-''\<rparr>"] some
  have "Queues (exampleConfig\<lparr>queuePrefix := Some ''jobs-''\<rparr>) wkf_workflow = ''jobs-'' @ ''flows'' \<and>
        Queues (exampleConfig\<lparr>queuePrefix := Some ''jobs-''\<rparr>) wkf_step = ''jobs-'' @ ''steps''"
    by blast
  ultimately show ?thesis using none some by simp
qed

subsection \<open>Provisioning after a failed lookup\<close>

text \<open>
  Claim C5, as stated, fails where the configured rate is 0 and the service refuses the
  create call: the queue is requested with rate 10, not with the configured 0, and
  \<^verbatim>\<open>ensureQueue\<close> throws the error of the create call instead of returning.
\<close>

theorem ensureQueue_lookup_failure_counterexample:
  "queueConcurrency (exampleConfig\<lparr>queueConcurrency := Some (Finite 0)\<rparr>) = Some (Finite 0) \<and>
   ensureQueue (exampleConfig\<lparr>queueConcurrency := Some (Finite 0)\<rparr>) (exampleDeps denyingCloud)
       ''workflow-flows'' emptyWorld =
     (Inl (Thrown (Some 7) ''PERMISSION_DENIED''),
      \<lparr>calls =
         [GetQueue ''projects/acme/locations/us-central1/queues/workflow-flows'',
          CreateQueue ''projects/acme/locations/us-central1''
            ''projects/acme/locations/us-central1/queues/workflow-flows'' (Finite 10)],
       generated = 0\<rparr>)"
  by (simp add: ensureQueue_def perform_def maxDispatchesPerSecond_def example_defs)

text \<open>
  Claim C5, amended. When the lookup fails with code 5, \<^verbatim>\<open>ensureQueue\<close> makes one create
  call, with the location path of the configured project and location as parent, the
  queue path of the name, and as maximum dispatch rate the configured value when it is
  set and truthy (neither 0 nor \<^verbatim>\<open>NaN\<close>), and 10 otherwise; \<^verbatim>\<open>ensureQueue\<close> then ends as the
  create call does: it
  returns normally when the create call succeeds and throws its error when it fails.
  When the lookup fails with any other error, \<^verbatim>\<open>ensureQueue\<close> throws that error and makes
  no create call.
\<close>

theorem ensureQueue_lookup_failure:
  assumes "respond d (calls w)
     (GetQueue (queuePath d (gcpProjectId config) (gcpLocation config) queueName)) = Inl error"
  shows
    "(code error = Some 5 \<longrightarrow>
        ensureQueue config d queueName w =
          (respond d
             (calls w @
                [GetQueue (queuePath d (gcpProjectId config) (gcpLocation config) queueName)])
             (CreateQueue (locationPath d (gcpProjectId config) (gcpLocation config))
                (queuePath d (gcpProjectId config) (gcpLocation config) queueName)
                (if queueConcurrency config = None \<or> queueConcurrency config = Some NaN \<or>
                    queueConcurrency config = Some (Finite 0)
                 then Finite 10 else the (queueConcurrency config))),
           w\<lparr>calls := calls w @
              [GetQueue (queuePath d (gcpProjectId config) (gcpLocation config) queueName),
               CreateQueue (locationPath d (gcpProjectId config) (gcpLocation config))
                 (queuePath d (gcpProjectId config) (gcpLocation config) queueName)
                 (if queueConcurrency config = None \<or> queueConcurrency config = Some NaN \<or>
                     queueConcurrency config = Some (Finite 0)
                  then Finite 10 else the (queueConcurrency config))]\<rparr>)) \<and>
     (code error \<noteq> Some 5 \<longrightarrow>
        ensureQueue config d queueName w =
          (Inl error,
           w\<lparr>calls := calls w @
              [GetQueue (queuePath d (gcpProjectId config) (gcpLocation config) queueName)]\<rparr>))"
  using assms ensureQueue_not_found [of d w config queueName error]
    ensureQueue_other [of d w config queueName error]
  by (simp add: maxDispatchesPerSecond_cases getQueuePath_def)

theorem ensureQueue_lookup_failure_witness:
  "respond (exampleDeps emptyCloud) (calls emptyWorld)
      (GetQueue ''projects/acme/locations/us-central1/queues/workflow-flows'') =
     Inl (Thrown (Some 5) ''NOT_FOUND'') \<and>
   ensureQueue (exampleConfig\<lparr>queueConcurrency := Some (Finite 25)\<rparr>) (exampleDeps emptyCloud)
       ''workflow-flows'' emptyWorld =
     (Inr (),
      \<lparr>calls =
         [GetQueue ''projects/acme/locations/us-central1/queues/workflow-flows'',
          CreateQueue ''projects/acme/locations/us-central1''
            ''projects/acme/locations/us-central1/queues/workflow-flows'' (Finite 25)],
       generated = 0\<rparr>) \<and>
   respond (exampleDeps unavailableCloud) (calls emptyWorld)
      (GetQueue ''projects/acme/locations/us-central1/queues/workflow-flows'') =
     Inl (Thrown (Some 14) ''UNAVAILABLE'') \<and>
   ensureQueue exampleConfig (exampleDeps unavailableCloud) ''workflow-flows'' emptyWorld =
     (Inl (Thrown (Some 14) ''UNAVAILABLE''),
      \<lparr>calls = [GetQueue ''projects/acme/locations/us-central1/queues/workflow-flows''],
       generated = 0\<rparr>)"
proof -
  let ?c = "exampleConfig\<lparr>queueConcurrency := Some (Finite 25)\<rparr>"
  let ?up = "exampleDeps emptyCloud"
  let ?down = "exampleDeps unavailableCloud"
  have missing: "respond ?up (calls emptyWorld)
      (GetQueue (queuePath ?up (gcpProjectId ?c) (gcpLocation ?c) ''workflow-flows'')) =
      Inl (Thrown (Some 5) ''NOT_FOUND'')"
    by (simp add: example_defs)
  have down: "respond ?down (calls emptyWorld)
      (GetQueue (queuePath ?down (gcpProjectId exampleConfig) (gcpLocation exampleConfig)
         ''workflow-flows'')) =
      Inl (Thrown (Some 14) ''UNAVAILABLE'')"
    by (simp add: example_defs)
  from ensureQueue_lookup_failure [OF missing]
  have "ensureQueue ?c ?up ''workflow-flows'' emptyWorld =
     (Inr (),
      \<lparr>calls =
         [GetQueue ''projects/acme/locations/us-central1/queues/workflow-flows'',
          CreateQueue ''projects/acme/locations/us-central1''
            ''projects/acme/locations/us-central1/queues/workflow-flows'' (Finite 25)],
       generated = 0\<rparr>)"
    by (simp add: example_defs)
  moreover from ensureQueue_lookup_failure [OF down]
  have "ensureQueue exampleConfig ?down ''workflow-flows'' emptyWorld =
     (Inl (Thrown (Some 14) ''UNAVAILABLE''),
      \<lparr>calls = [GetQueue ''projects/acme/locations/us-central1/queues/workflow-flows''],
       generated = 0\<rparr>)"
    by (simp add: example_defs)
  moreover from missing have "respond ?up (calls emptyWorld)
      (GetQueue ''projects/acme/locations/us-central1/queues/workflow-flows'') =
      Inl (Thrown (Some 5) ''NOT_FOUND'')"
    by (simp add: example_defs)
  moreover from down have "respond ?down (calls emptyWorld)
      (GetQueue ''projects/acme/locations/us-central1/queues/workflow-flows'') =
      Inl (Thrown (Some 14) ''UNAVAILABLE'')"
    by (simp add: example_defs)
  ultimately show ?thesis by simp
qed

subsection \<open>A configured rate of 0\<close>

text \<open>
  Claim C10. With \<^verbatim>\<open>queueConcurrency\<close> set to 0, a queue that \<^verbatim>\<open>ensureQueue\<close> creates
  (the lookup failed with code 5) is requested with maximum dispatch rate 10, and the
  calls made are those made when \<^verbatim>\<open>queueConcurrency\<close> is not set at all.
\<close>

theorem ensureQueue_zero_concurrency:
  assumes "queueConcurrency config = Some (Finite 0)"
    and "respond d (calls w) (GetQueue (getQueuePath config d queueName)) = Inl error"
    and "code error = Some 5"
  shows
    "calls (snd (ensureQueue config d queueName w)) =
       calls w @
         [GetQueue (getQueuePath config d queueName),
          CreateQueue (locationPath d (gcpProjectId config) (gcpLocation config))
            (getQueuePath config d queueName) (Finite 10)] \<and>
     ensureQueue (config\<lparr>queueConcurrency := None\<rparr>) d queueName w =
       ensureQueue config d queueName w"
proof -
  have same: "getQueuePath (config\<lparr>queueConcurrency := None\<rparr>) d queueName =
      getQueuePath config d queueName"
    by (simp add: getQueuePath_def)
  from assms(1) have rate: "maxDispatchesPerSecond config = Finite 10"
    and unset: "maxDispatchesPerSecond (config\<lparr>queueConcurrency := None\<rparr>) = Finite 10"
    by (simp_all add: maxDispatchesPerSecond_def)
  from assms(2,3) have "ensureQueue config d queueName w =
     (respond d (calls w @ [GetQueue (getQueuePath config d queueName)])
        (CreateQueue (locationPath d (gcpProjectId config) (gcpLocation config))
           (getQueuePath config d queueName) (Finite 10)),
      w\<lparr>calls := calls w @
         [GetQueue (getQueuePath config d queueName),
          CreateQueue (locationPath d (gcpProjectId config) (gcpLocation config))
            (getQueuePath config d queueName) (Finite 10)]\<rparr>)"
    using ensureQueue_not_found [of d w config queueName error] rate by simp
  moreover from assms(2,3) have "ensureQueue (config\<lparr>queueConcurrency := None\<rparr>) d queueName w =
     (respond d (calls w @ [GetQueue (getQueuePath config d queueName)])
        (CreateQueue (locationPath d (gcpProjectId config) (gcpLocation config))
           (getQueuePath config d queueName) (Finite 10)),
      w\<lparr>calls := calls w @
         [GetQueue (getQueuePath config d queueName),
          CreateQueue (locationPath d (gcpProjectId config) (gcpLocation config))
            (getQueuePath config d queueName) (Finite 10)]\<rparr>)"
    using ensureQueue_not_found [of d w "config\<lparr>queueConcurrency := None\<rparr>" queueName error]
      unset same by simp
  ultimately show ?thesis by simp
qed

theorem ensureQueue_zero_concurrency_witness:
  "queueConcurrency (exampleConfig\<lparr>queueConcurrency := Some (Finite 0)\<rparr>) = Some (Finite 0) \<and>
   respond (exampleDeps emptyCloud) (calls emptyWorld)
      (GetQueue (getQueuePath (exampleConfig\<lparr>queueConcurrency := Some (Finite 0)\<rparr>)
         (exampleDeps emptyCloud) ''workflow-steps'')) = Inl (Thrown (Some 5) ''NOT_FOUND'') \<and>
   code (Thrown (Some 5) ''NOT_FOUND'') = Some 5 \<and>
   calls (snd (ensureQueue (exampleConfig\<lparr>queueConcurrency := Some (Finite 0)\<rparr>)
      (exampleDeps emptyCloud) ''workflow-steps'' emptyWorld)) =
     [GetQueue ''projects/acme/locations/us-central1/queues/workflow-steps'',
      CreateQueue ''projects/acme/locations/us-central1''
        ''projects/acme/locations/us-central1/queues/workflow-steps'' (Finite 10)]"
proof -
  let ?c = "exampleConfig\<lparr>queueConcurrency := Some (Finite 0)\<rparr>"
  have zero: "queueConcurrency ?c = Some (Finite 0)"
    by simp
  have missing: "respond (exampleDeps emptyCloud) (calls emptyWorld)
      (GetQueue (getQueuePath ?c (exampleDeps emptyCloud) ''workflow-steps'')) =
      Inl (Thrown (Some 5) ''NOT_FOUND'')"
    by (simp add: example_defs)
  have five: "code (Thrown (Some 5) ''NOT_FOUND'') = Some 5"
    by simp
  from ensureQueue_zero_concurrency [OF zero missing five]
  have "calls (snd (ensureQueue ?c (exampleDeps emptyCloud) ''workflow-steps'' emptyWorld)) =
     [GetQueue ''projects/acme/locations/us-central1/queues/workflow-steps'',
      CreateQueue ''projects/acme/locations/us-central1''
        ''projects/acme/locations/us-central1/queues/workflow-steps'' (Finite 10)]"
    by (simp add: example_defs)
  with zero missing five show ?thesis by simp
qed

subsection \<open>Delivery\<close>

lemma processTask_valid_body:
  "deserialize d (payloadData p) = Inr b \<Longrightarrow> schemaParse d b = Inr msg \<Longrightarrow>
   processTask d p w =
     (respond d (calls w)
        (EngineQueue (template (payloadPrefix p) @ template (payloadId p)) msg
           (payloadIdempotencyKey p)),
      w\<lparr>calls := calls w @
         [EngineQueue (template (payloadPrefix p) @ template (payloadId p)) msg
            (payloadIdempotencyKey p)]\<rparr>)"
  by (simp add: processTask_def perform_def Let_def)

text \<open>
  Claim C2. For a delivered envelope that has a prefix and an id and whose body
  deserializes and validates, \<^verbatim>\<open>processTask\<close> makes exactly one call, to the embedded
  world's \<^verbatim>\<open>queue\<close>, with the queue name prefix followed by id, the validated message and
  the envelope's idempotency key, and ends as that call does.
\<close>

theorem processTask_forwards:
  assumes "payloadPrefix p = Some prefix" and "payloadId p = Some ident"
    and "deserialize d (payloadData p) = Inr b" and "schemaParse d b = Inr msg"
  shows "processTask d p w =
     (respond d (calls w) (EngineQueue (prefix @ ident) msg (payloadIdempotencyKey p)),
      w\<lparr>calls := calls w @ [EngineQueue (prefix @ ident) msg (payloadIdempotencyKey p)]\<rparr>)"
  using assms processTask_valid_body [of d p b msg w] by simp

theorem processTask_forwards_witness:
  "payloadPrefix examplePayload = Some ''__wkf_step_'' \<and>
   payloadId examplePayload = Some ''abc123'' \<and>
   deserialize (exampleDeps emptyCloud) (payloadData examplePayload) = Inr ''hello'' \<and>
   schemaParse (exampleDeps emptyCloud) ''hello'' = Inr ''hello'' \<and>
   processTask (exampleDeps emptyCloud) examplePayload emptyWorld =
     (Inr (), \<lparr>calls = [EngineQueue ''__wkf_step_abc123'' ''hello'' (Some ''k1'')],
               generated = 0\<rparr>)"
proof -
  let ?d = "exampleDeps emptyCloud"
  have pre: "payloadPrefix examplePayload = Some ''__wkf_step_''"
    and ident: "payloadId examplePayload = Some ''abc123''"
    and des: "deserialize ?d (payloadData examplePayload) = Inr ''hello''"
    and val: "schemaParse ?d ''hello'' = Inr ''hello''"
    by (simp_all add: examplePayload_def exampleDeps_def)
  from processTask_forwards [OF pre ident des val, of emptyWorld]
  have "processTask ?d examplePayload emptyWorld =
     (Inr (), \<lparr>calls = [EngineQueue ''__wkf_step_abc123'' ''hello'' (Some ''k1'')],
               generated = 0\<rparr>)"
    by (simp add: examplePayload_def exampleDeps_def emptyWorld_def)
  with pre ident des val show ?thesis by simp
qed

text \<open>
  Claim C4, as stated, fails for an envelope without a prefix whose body deserializes and
  validates: \<^verbatim>\<open>processTask\<close> calls the embedded world with the queue name
  \<^verbatim>\<open>undefinedabc123\<close> and returns normally when that call does.
\<close>

theorem processTask_missing_prefix_counterexample:
  "payloadPrefix (examplePayload\<lparr>payloadPrefix := None\<rparr>) = None \<and>
   processTask (exampleDeps emptyCloud) (examplePayload\<lparr>payloadPrefix := None\<rparr>) emptyWorld =
     (Inr (), \<lparr>calls = [EngineQueue ''undefinedabc123'' ''hello'' (Some ''k1'')],
               generated = 0\<rparr>)"
  by (simp add: processTask_def perform_def Let_def examplePayload_def exampleDeps_def emptyWorld_def)

text \<open>
  Claim C4, amended. \<^verbatim>\<open>processTask\<close> does not inspect the fields of the envelope. When the
  body does not deserialize, or does not validate against the message schema,
  \<^verbatim>\<open>processTask\<close> throws that error and makes no call into the embedded world. When the body
  deserializes and validates, it calls the embedded world once, whatever the prefix and
  the id are: the queue name is the prefix followed by the id, an absent one of them
  printed as \<^verbatim>\<open>undefined\<close>, and \<^verbatim>\<open>processTask\<close> ends as that call does.
\<close>

theorem processTask_outcomes:
  "(\<forall>e. deserialize d (payloadData p) = Inl e \<longrightarrow> processTask d p w = (Inl e, w)) \<and>
   (\<forall>b e. deserialize d (payloadData p) = Inr b \<and> schemaParse d b = Inl e \<longrightarrow>
      processTask d p w = (Inl e, w)) \<and>
   (\<forall>b msg. deserialize d (payloadData p) = Inr b \<and> schemaParse d b = Inr msg \<longrightarrow>
      processTask d p w =
        (respond d (calls w)
           (EngineQueue
              ((case payloadPrefix p of None \<Rightarrow> ''undefined'' | Some s \<Rightarrow> s) @
               (case payloadId p of None \<Rightarrow> ''undefined'' | Some s \<Rightarrow> s))
              msg (payloadIdempotencyKey p)),
         w\<lparr>calls := calls w @
            [EngineQueue
               ((case payloadPrefix p of None \<Rightarrow> ''undefined'' | Some s \<Rightarrow> s) @
                (case payloadId p of None \<Rightarrow> ''undefined'' | Some s \<Rightarrow> s))
               msg (payloadIdempotencyKey p)]\<rparr>))"
  by (auto simp add: processTask_def perform_def Let_def split: option.splits)

theorem processTask_outcomes_witness:
  "deserialize (exampleDeps emptyCloud) (payloadData (examplePayload\<lparr>payloadData := None\<rparr>)) =
     Inl (Thrown None ''Unexpected end of JSON input'') \<and>
   processTask (exampleDeps emptyCloud) (examplePayload\<lparr>payloadData := None\<rparr>) emptyWorld =
     (Inl (Thrown None ''Unexpected end of JSON input''), emptyWorld) \<and>
   deserialize (exampleDeps emptyCloud\<lparr>schemaParse := strictSchema\<rparr>)
     (payloadData (examplePayload\<lparr>payloadData := Some ''junk''\<rparr>)) = Inr ''junk'' \<and>
   schemaParse (exampleDeps emptyCloud\<lparr>schemaParse := strictSchema\<rparr>) ''junk'' =
     Inl (Thrown None ''Invalid message'') \<and>
   processTask (exampleDeps emptyCloud\<lparr>schemaParse := strictSchema\<rparr>)
       (examplePayload\<lparr>payloadData := Some ''junk''\<rparr>) emptyWorld =
     (Inl (Thrown None ''Invalid message''), emptyWorld) \<and>
   deserialize (exampleDeps emptyCloud)
     (payloadData (examplePayload\<lparr>payloadPrefix := Some ''bogus_''\<rparr>)) = Inr ''hello'' \<and>
   schemaParse (exampleDeps emptyCloud) ''hello'' = Inr ''hello'' \<and>
   processTask (exampleDeps emptyCloud) (examplePayload\<lparr>payloadPrefix := Some ''bogus_''\<rparr>)
       emptyWorld =
     (Inr (), \<lparr>calls = [EngineQueue ''bogus_abc123'' ''hello'' (Some ''k1'')],
               generated = 0\<rparr>)"
proof -
  let ?d = "exampleDeps emptyCloud"
  let ?nodata = "examplePayload\<lparr>payloadData := None\<rparr>"
  let ?bogus = "examplePayload\<lparr>payloadPrefix := Some ''bogus_''\<rparr>"
  let ?strict = "exampleDeps emptyCloud\<lparr>schemaParse := strictSchema\<rparr>"
  let ?junk = "examplePayload\<lparr>payloadData := Some ''junk''\<rparr>"
  have bad: "deserialize ?d (payloadData ?nodata) = Inl (Thrown None ''Unexpected end of JSON input'')"
    by (simp add: exampleDeps_def)
  have des': "deserialize ?strict (payloadData ?junk) = Inr ''junk''"
    and inval: "schemaParse ?strict ''junk'' = Inl (Thrown None ''Invalid message'')"
    by (simp_all add: exampleDeps_def strictSchema_def)
  have des: "deserialize ?d (payloadData ?bogus) = Inr ''hello''"
    and val: "schemaParse ?d ''hello'' = Inr ''hello''"
    by (simp_all add: examplePayload_def exampleDeps_def)
  from processTask_outcomes [of ?d ?nodata emptyWorld] bad
  have "processTask ?d ?nodata emptyWorld =
      (Inl (Thrown None ''Unexpected end of JSON input''), emptyWorld)"
    by blast
  moreover from processTask_outcomes [of ?strict ?junk emptyWorld] des' inval
  have "processTask ?strict ?junk emptyWorld = (Inl (Thrown None ''Invalid message''), emptyWorld)"
    by blast
  moreover from processTask_outcomes [of ?d ?bogus emptyWorld] des val
  have "processTask ?d ?bogus emptyWorld =
     (respond ?d (calls emptyWorld)
        (EngineQueue
           ((case payloadPrefix ?bogus of None \<Rightarrow> ''undefined'' | Some s \<Rightarrow> s) @
            (case payloadId ?bogus of None \<Rightarrow> ''undefined'' | Some s \<Rightarrow> s))
           ''hello'' (payloadIdempotencyKey ?bogus)),
      emptyWorld\<lparr>calls := calls emptyWorld @
         [EngineQueue
            ((case payloadPrefix ?bogus of None \<Rightarrow> ''undefined'' | Some s \<Rightarrow> s) @
             (case payloadId ?bogus of None \<Rightarrow> ''undefined'' | Some s \<Rightarrow> s))
            ''hello'' (payloadIdempotencyKey ?bogus)]\<rparr>)"
    by blast
  then have "processTask ?d ?bogus emptyWorld =
     (Inr (), \<lparr>calls = [EngineQueue ''bogus_abc123'' ''hello'' (Some ''k1'')],
               generated = 0\<rparr>)"
    by (simp add: examplePayload_def exampleDeps_def emptyWorld_def)
  ultimately show ?thesis using bad des' inval des val by simp
qed

subsection \<open>The submitted task\<close>

lemma queue_submits:
  assumes "parseQueueName qname = Inr (prefix, queueId)"
    and "ensureQueue config d (Queues config prefix) w = (Inr (), w1)"
    and "serialize d msg = Inr data"
  shows "calls (snd (queue config d qname msg opts w)) =
     calls w1 @
       [CreateTask (getQueuePath config d (Queues config prefix))
          \<lparr>httpMethod = ''POST'', url = handlerUrl d,
           headers = [(''Content-Type'', ''application/json'')],
           body = \<lparr>envId = queueId, envData = data,
                    envMessageId = ''msg_'' @ generateMessageId d (generated w1),
                    envIdempotencyKey = optsKey opts, envPrefix = prefix_string prefix\<rparr>,
           taskName =
             (if truthy (optsKey opts)
              then Some (taskPath d (gcpProjectId config) (gcpLocation config)
                           (Queues config prefix) (the (optsKey opts)))
              else None)\<rparr>]"
  using assms by (simp add: queue_def perform_def Let_def split: sum.splits)

lemma truthy_cases: "truthy key \<longleftrightarrow> \<not> (key = None \<or> key = Some [])"
  by (cases key) simp_all

text \<open>
  Claim C3, as stated, fails for the idempotency key that is the empty string: the key is
  given, and is sent in the body of the request, but no task name is built from it: the
  task is submitted without a name, as it is when no key is given, so two such calls
  carry no common name.
\<close>

theorem queue_empty_key_counterexample:
  "optsKey (Some \<lparr>idempotencyKey = Some ''''\<rparr>) = Some '''' \<and>
   calls (snd (queue exampleConfig (exampleDeps emptyCloud) ''__wkf_step_abc123'' ''hello''
                 (Some \<lparr>idempotencyKey = Some ''''\<rparr>) emptyWorld)) =
     [GetQueue ''projects/acme/locations/us-central1/queues/workflow-steps'',
      CreateQueue ''projects/acme/locations/us-central1''
        ''projects/acme/locations/us-central1/queues/workflow-steps'' (Finite 10),
      CreateTask ''projects/acme/locations/us-central1/queues/workflow-steps''
        \<lparr>httpMethod = ''POST'', url = ''http://localhost:3000/api/tasks'',
         headers = [(''Content-Type'', ''application/json'')],
         body = \<lparr>envId = ''abc123'', envData = ''hello'', envMessageId = ''msg_01AB'',
                  envIdempotencyKey = Some '''', envPrefix = ''__wkf_step_''\<rparr>,
         taskName = None\<rparr>]"
  by (simp add: queue_def ensureQueue_def perform_def parseQueueName_def startsWith_def
      slice_def namePrefix_def maxDispatchesPerSecond_def handlerUrl_def Let_def example_defs)

text \<open>
  Claim C3, amended. Take two calls of \<^verbatim>\<open>queue\<close> whose queue names have the same recognized
  prefix and whose options hold the same idempotency key, each of which gets as far as the
  submission (its queue is ensured and its message serializes). Each ends its log with one
  \<^verbatim>\<open>createTask\<close> call on the queue path of the physical queue. When the key is a string
  that is not empty, both submitted tasks carry the same name, the task path of project,
  location, physical queue name and key. When no key is given, or the key is the empty
  string, both tasks are submitted without a name.
\<close>

theorem queue_task_name:
  assumes "parseQueueName q1 = Inr (prefix, id1)" and "parseQueueName q2 = Inr (prefix, id2)"
    and "ensureQueue config d (Queues config prefix) w1 = (Inr (), v1)"
    and "ensureQueue config d (Queues config prefix) w2 = (Inr (), v2)"
    and "serialize d m1 = Inr b1" and "serialize d m2 = Inr b2"
    and "optsKey o1 = key" and "optsKey o2 = key"
  shows "\<exists>t1 t2.
     calls (snd (queue config d q1 m1 o1 w1)) =
       calls v1 @ [CreateTask (getQueuePath config d (Queues config prefix)) t1] \<and>
     calls (snd (queue config d q2 m2 o2 w2)) =
       calls v2 @ [CreateTask (getQueuePath config d (Queues config prefix)) t2] \<and>
     taskName t1 = taskName t2 \<and>
     taskName t1 =
       (if key = None \<or> key = Some [] then None
        else Some (taskPath d (gcpProjectId config) (gcpLocation config)
                     (Queues config prefix) (the key)))"
proof -
  let ?name = "if truthy key
     then Some (taskPath d (gcpProjectId config) (gcpLocation config)
                  (Queues config prefix) (the key))
     else None"
  let ?t1 = "\<lparr>httpMethod = ''POST'', url = handlerUrl d,
       headers = [(''Content-Type'', ''application/json'')],
       body = \<lparr>envId = id1, envData = b1,
                envMessageId = ''msg_'' @ generateMessageId d (generated v1),
                envIdempotencyKey = key, envPrefix = prefix_string prefix\<rparr>,
       taskName = ?name\<rparr>"
  let ?t2 = "\<lparr>httpMethod = ''POST'', url = handlerUrl d,
       headers = [(''Content-Type'', ''application/json'')],
       body = \<lparr>envId = id2, envData = b2,
                envMessageId = ''msg_'' @ generateMessageId d (generated v2),
                envIdempotencyKey = key, envPrefix = prefix_string prefix\<rparr>,
       taskName = ?name\<rparr>"
  have "calls (snd (queue config d q1 m1 o1 w1)) =
      calls v1 @ [CreateTask (getQueuePath config d (Queues config prefix)) ?t1]"
    using queue_submits [OF assms(1) assms(3) assms(5), of o1] assms(7) by simp
  moreover have "calls (snd (queue config d q2 m2 o2 w2)) =
      calls v2 @ [CreateTask (getQueuePath config d (Queues config prefix)) ?t2]"
    using queue_submits [OF assms(2) assms(4) assms(6), of o2] assms(8) by simp
  moreover have "taskName ?t1 = taskName ?t2"
    by simp
  moreover have "taskName ?t1 =
       (if key = None \<or> key = Some [] then None
        else Some (taskPath d (gcpProjectId config) (gcpLocation config)
                     (Queues config prefix) (the key)))"
    by (simp add: truthy_cases)
  ultimately show ?thesis by blast
qed

lemmas eval_defs =
  queue_def ensureQueue_def perform_def parseQueueName_def startsWith_def slice_def
  namePrefix_def maxDispatchesPerSecond_def handlerUrl_def Let_def example_defs

lemma afterFirst_calls:
  "afterFirst =
     \<lparr>calls =
        [GetQueue ''projects/acme/locations/us-central1/queues/workflow-steps'',
         CreateQueue ''projects/acme/locations/us-central1''
           ''projects/acme/locations/us-central1/queues/workflow-steps'' (Finite 10),
         CreateTask ''projects/acme/locations/us-central1/queues/workflow-steps''
           \<lparr>httpMethod = ''POST'', url = ''http://localhost:3000/api/tasks'',
            headers = [(''Content-Type'', ''application/json'')],
            body = \<lparr>envId = ''abc123'', envData = ''hello'', envMessageId = ''msg_01AB'',
                     envIdempotencyKey = Some ''k1'', envPrefix = ''__wkf_step_''\<rparr>,
            taskName =
              Some ''projects/acme/locations/us-central1/queues/workflow-steps/tasks/k1''\<rparr>],
      generated = 1\<rparr>"
  by (simp add: afterFirst_def eval_defs)

theorem queue_task_name_witness:
  "parseQueueName ''__wkf_step_abc123'' = Inr (wkf_step, ''abc123'') \<and>
   parseQueueName ''__wkf_step_xyz'' = Inr (wkf_step, ''xyz'') \<and>
   ensureQueue exampleConfig (exampleDeps emptyCloud) (Queues exampleConfig wkf_step) emptyWorld =
     (Inr (), afterEnsure) \<and>
   ensureQueue exampleConfig (exampleDeps emptyCloud) (Queues exampleConfig wkf_step) afterFirst =
     (Inr (),
      afterFirst\<lparr>calls := calls afterFirst @
        [GetQueue ''projects/acme/locations/us-central1/queues/workflow-steps'']\<rparr>) \<and>
   serialize (exampleDeps emptyCloud) ''hello'' = Inr ''hello'' \<and>
   serialize (exampleDeps emptyCloud) ''again'' = Inr ''again'' \<and>
   optsKey (Some \<lparr>idempotencyKey = Some ''k1''\<rparr>) = Some ''k1'' \<and>
   (\<exists>t1 t2.
      calls (snd (queue exampleConfig (exampleDeps emptyCloud) ''__wkf_step_abc123'' ''hello''
                    (Some \<lparr>idempotencyKey = Some ''k1''\<rparr>) emptyWorld)) =
        calls afterEnsure @
          [CreateTask ''projects/acme/locations/us-central1/queues/workflow-steps'' t1] \<and>
      calls (snd (queue exampleConfig (exampleDeps emptyCloud) ''__wkf_step_xyz'' ''again''
                    (Some \<lparr>idempotencyKey = Some ''k1''\<rparr>) afterFirst)) =
        (calls afterFirst @
           [GetQueue ''projects/acme/locations/us-central1/queues/workflow-steps'']) @
          [CreateTask ''projects/acme/locations/us-central1/queues/workflow-steps'' t2] \<and>
      taskName t1 = taskName t2 \<and>
      taskName t1 =
        Some ''projects/acme/locations/us-central1/queues/workflow-steps/tasks/k1'')"
proof -
  let ?d = "exampleDeps emptyCloud"
  let ?o = "Some \<lparr>idempotencyKey = Some ''k1''\<rparr>"
  let ?get = "GetQueue ''projects/acme/locations/us-central1/queues/workflow-steps'' :: string call"
  have p1: "parseQueueName ''__wkf_step_abc123'' = Inr (wkf_step, ''abc123'')"
    and p2: "parseQueueName ''__wkf_step_xyz'' = Inr (wkf_step, ''xyz'')"
    by (simp_all add: parseQueueName_def startsWith_def slice_def)
  have e1: "ensureQueue exampleConfig ?d (Queues exampleConfig wkf_step) emptyWorld =
      (Inr (), afterEnsure)"
    by (simp add: afterEnsure_def eval_defs)
  have e2: "ensureQueue exampleConfig ?d (Queues exampleConfig wkf_step) afterFirst =
      (Inr (), afterFirst\<lparr>calls := calls afterFirst @ [?get]\<rparr>)"
    by (simp add: afterFirst_calls eval_defs)
  have s1: "serialize ?d ''hello'' = Inr ''hello''"
    and s2: "serialize ?d ''again'' = Inr ''again''"
    by (simp_all add: exampleDeps_def)
  have k: "optsKey ?o = Some ''k1''"
    by simp
  from queue_task_name [OF p1 p2 e1 e2 s1 s2 k k]
  have "\<exists>t1 t2.
      calls (snd (queue exampleConfig ?d ''__wkf_step_abc123'' ''hello'' ?o emptyWorld)) =
        calls afterEnsure @
          [CreateTask ''projects/acme/locations/us-central1/queues/workflow-steps'' t1] \<and>
      calls (snd (queue exampleConfig ?d ''__wkf_step_xyz'' ''again'' ?o afterFirst)) =
        (calls afterFirst @ [?get]) @
          [CreateTask ''projects/acme/locations/us-central1/queues/workflow-steps'' t2] \<and>
      taskName t1 = taskName t2 \<and>
      taskName t1 =
        Some ''projects/acme/locations/us-central1/queues/workflow-steps/tasks/k1''"
    by (simp add: namePrefix_def exampleConfig_def exampleDeps_def getQueuePath_def
        cloudQueuePath_def cloudTaskPath_def)
  with p1 p2 e1 e2 s1 s2 k show ?thesis
    by blast
qed

subsection \<open>Message identifiers\<close>

lemma ENCODING_sorted: "sorted_wrt (<) ENCODING"
  by (simp add: ENCODING_def)

lemma length_ENCODING: "length ENCODING = 32"
  by (simp add: ENCODING_def)

lemma digit_mono: "i < j \<Longrightarrow> j < 32 \<Longrightarrow> ENCODING ! i < ENCODING ! j"
  using ENCODING_sorted by (simp add: sorted_wrt_iff_nth_less length_ENCODING)

lemma length_encode [simp]: "length (encode len v) = len"
  by (induction len arbitrary: v) simp_all

lemma less_append_same_length:
  "length xs = length ys \<Longrightarrow> xs @ us < ys @ vs \<longleftrightarrow> xs < ys \<or> (xs = ys \<and> us < vs)"
  for xs ys :: string
  by (induction xs ys rule: list_induct2) auto

lemma encode_mono: "x < y \<Longrightarrow> y < 32 ^ len \<Longrightarrow> encode len x < encode len y"
proof (induction len arbitrary: x y)
  case 0
  then show ?case by simp
next
  case (Suc len)
  from Suc.prems have high: "y div 32 < 32 ^ len"
    by (simp add: less_mult_imp_div_less mult.commute)
  from Suc.prems have le: "x div 32 \<le> y div 32"
    by (simp add: div_le_mono)
  show ?case
  proof (cases "x div 32 < y div 32")
    case True
    from True high have "encode len (x div 32) < encode len (y div 32)"
      by (rule Suc.IH)
    then show ?thesis
      by (simp add: less_append_same_length)
  next
    case False
    with le have same: "x div 32 = y div 32"
      by simp
    with Suc.prems(1) have "x mod 32 < y mod 32"
      by (metis div_mult_mod_eq nat_add_left_cancel_less)
    then have "digit x < digit y"
      unfolding digit_def by (intro digit_mono) simp_all
    with same show ?thesis
      by (simp add: less_append_same_length)
  qed
qed


lemma stateLess_trans: "stateLess a b \<Longrightarrow> stateLess b c \<Longrightarrow> stateLess a c"
  by (auto simp add: stateLess_def)

lemma stateLess_step: "stateLess st (snd (monotonicUlid now st))"
  by (simp add: stateLess_def monotonicUlid_def Let_def)

lemma stateAfter_less: "i < j \<Longrightarrow> stateLess (stateAfter clock i) (stateAfter clock j)"
proof (induction j)
  case 0
  then show ?case by simp
next
  case (Suc j)
  have step: "stateLess (stateAfter clock j) (stateAfter clock (Suc j))"
    by (simp add: stateLess_step)
  show ?case
  proof (cases "i = j")
    case True
    with step show ?thesis by simp
  next
    case False
    with Suc.prems have "i < j" by simp
    then have "stateLess (stateAfter clock i) (stateAfter clock j)"
      by (rule Suc.IH)
    then show ?thesis using step by (rule stateLess_trans)
  qed
qed

lemma stateAfter_time:
  "(\<And>k. k < n \<Longrightarrow> clock k < bound) \<Longrightarrow> 0 < bound \<Longrightarrow> lastTime (stateAfter clock n) < bound"
  by (induction n) (simp_all add: monotonicUlid_def Let_def)

lemma stateAfter_counter: "lastCounter (stateAfter clock n) \<le> n"
  by (induction n) (simp_all add: monotonicUlid_def Let_def)

lemma ulidOf_mono:
  assumes "stateLess a b" and "lastTime b < 32 ^ 10" and "lastCounter b < 32 ^ 16"
  shows "ulidOf a < ulidOf b"
proof (cases "lastTime a < lastTime b")
  case True
  from True assms(2) have "encode 10 (lastTime a) < encode 10 (lastTime b)"
    by (rule encode_mono)
  then show ?thesis
    by (simp add: ulidOf_def less_append_same_length)
next
  case False
  with assms(1) have same: "lastTime a = lastTime b" and "lastCounter a < lastCounter b"
    by (simp_all add: stateLess_def)
  from this(2) assms(3) have "encode 16 (lastCounter a) < encode 16 (lastCounter b)"
    by (rule encode_mono)
  with same show ?thesis
    by (simp add: ulidOf_def less_append_same_length)
qed

lemma nthUlid_state: "nthUlid clock n = ulidOf (stateAfter clock (Suc n))"
  by (simp add: nthUlid_def monotonicUlid_def Let_def)

lemma nthUlid_mono:
  assumes "i < j" and "j < n" and "n < 32 ^ 16" and "\<And>k. k < n \<Longrightarrow> clock k < 32 ^ 10"
  shows "nthUlid clock i < nthUlid clock j"
proof -
  from assms(1) have "Suc i < Suc j"
    by simp
  then have "stateLess (stateAfter clock (Suc i)) (stateAfter clock (Suc j))"
    by (rule stateAfter_less)
  moreover from assms(2,4) have "lastTime (stateAfter clock (Suc j)) < 32 ^ 10"
    by (intro stateAfter_time) simp_all
  moreover have "lastCounter (stateAfter clock (Suc j)) \<le> Suc j"
    by (rule stateAfter_counter)
  with assms(2,3) have "lastCounter (stateAfter clock (Suc j)) < 32 ^ 16"
    by linarith
  ultimately show ?thesis
    by (simp add: nthUlid_state ulidOf_mono)
qed

lemma ensureQueue_generated:
  "generated (snd (ensureQueue config d queueName w)) = generated w"
  by (simp add: ensureQueue_def perform_def split: sum.splits)

lemma queue_generated:
  assumes "queue config d qname msg opts w = (r, w1)"
  shows "generated w \<le> generated w1 \<and> generated w1 \<le> Suc (generated w) \<and>
         (\<forall>messageId. r = Inr messageId \<longrightarrow>
            messageId = ''msg_'' @ generateMessageId d (generated w) \<and>
            generated w1 = Suc (generated w))"
proof (cases "parseQueueName qname")
  case (Inl e)
  with assms show ?thesis by (auto simp add: queue_def)
next
  case (Inr parsed)
  obtain prefix queueId where parsed: "parsed = (prefix, queueId)"
    by (cases parsed)
  obtain e w0 where ens: "ensureQueue config d (Queues config prefix) w = (e, w0)"
    by (cases "ensureQueue config d (Queues config prefix) w")
  with ensureQueue_generated [of config d "Queues config prefix" w]
  have same: "generated w0 = generated w"
    by simp
  from assms Inr parsed ens same show ?thesis
    by (auto simp add: queue_def perform_def Let_def split: sum.splits)
qed

lemma dispatchAll_ids:
  "\<exists>ks. messageIds (fst (dispatchAll config d reqs w)) =
          map (\<lambda>k. ''msg_'' @ generateMessageId d k) ks \<and>
        sorted_wrt (<) ks \<and>
        (\<forall>k \<in> set ks. generated w \<le> k \<and> k < generated w + length reqs)"
proof (induction reqs arbitrary: w)
  case Nil
  show ?case by simp
next
  case (Cons req rest)
  obtain qname msg opts where req: "req = (qname, msg, opts)"
    by (cases req)
  obtain r w1 where q: "queue config d qname msg opts w = (r, w1)"
    by (cases "queue config d qname msg opts w")
  note gen = queue_generated [OF q]
  from Cons.IH [of w1] obtain ks where
    ids: "messageIds (fst (dispatchAll config d rest w1)) =
            map (\<lambda>k. ''msg_'' @ generateMessageId d k) ks"
    and srt: "sorted_wrt (<) ks"
    and rng: "\<forall>k \<in> set ks. generated w1 \<le> k \<and> k < generated w1 + length rest"
    by blast
  show ?case
  proof (cases r)
    case (Inl e)
    with req q ids have "messageIds (fst (dispatchAll config d (req # rest) w)) =
        map (\<lambda>k. ''msg_'' @ generateMessageId d k) ks"
      by (simp add: split_beta)
    moreover from rng gen
    have "\<forall>k \<in> set ks. generated w \<le> k \<and> k < generated w + length (req # rest)"
      by auto
    ultimately show ?thesis using srt by blast
  next
    case (Inr messageId)
    with gen have mid: "messageId = ''msg_'' @ generateMessageId d (generated w)"
      and succ: "generated w1 = Suc (generated w)"
      by simp_all
    from Inr req q ids mid
    have "messageIds (fst (dispatchAll config d (req # rest) w)) =
        map (\<lambda>k. ''msg_'' @ generateMessageId d k) (generated w # ks)"
      by (simp add: split_beta)
    moreover from rng succ have "sorted_wrt (<) (generated w # ks)"
      using srt by auto
    moreover from rng succ
    have "\<forall>k \<in> set (generated w # ks). generated w \<le> k \<and> k < generated w + length (req # rest)"
      by auto
    ultimately show ?thesis by blast
  qed
qed

lemma msg_less: "''msg_'' @ a < ''msg_'' @ b \<longleftrightarrow> a < b"
  by simp

text \<open>
  Claim C7. Take the generator on any clock, also one that repeats a reading or goes back,
  within the capacity of the identifier: fewer than \<open>32 ^ 16\<close> calls, and readings below
  \<open>32 ^ 10\<close> milliseconds. The message identifiers of the calls increase strictly in call
  order, so they are pairwise distinct and non-decreasing. For dispatch calls that do not
  overlap, the list of the returned message identifiers in call order is strictly
  increasing, has no repetition, and sorting it gives the same list.
\<close>

theorem messageIds_increasing:
  assumes gen: "generateMessageId d = nthUlid clock"
    and calls: "generated w + length reqs < 32 ^ 16"
    and time: "\<forall>k. k < generated w + length reqs \<longrightarrow> clock k < 32 ^ 10"
  shows
    "(\<forall>i j. i < j \<and> j < generated w + length reqs \<longrightarrow>
        ''msg_'' @ nthUlid clock i < ''msg_'' @ nthUlid clock j) \<and>
     sorted_wrt (<) (messageIds (fst (dispatchAll config d reqs w))) \<and>
     distinct (messageIds (fst (dispatchAll config d reqs w))) \<and>
     sort (messageIds (fst (dispatchAll config d reqs w))) =
       messageIds (fst (dispatchAll config d reqs w))"
proof -
  let ?n = "generated w + length reqs"
  let ?ids = "messageIds (fst (dispatchAll config d reqs w))"
  have mono: "nthUlid clock i < nthUlid clock j" if "i < j" and "j < ?n" for i j
    using that calls time by (intro nthUlid_mono [where n = ?n]) simp_all
  obtain ks where ids: "?ids = map (\<lambda>k. ''msg_'' @ generateMessageId d k) ks"
    and srt: "sorted_wrt (<) ks"
    and rng: "\<forall>k \<in> set ks. generated w \<le> k \<and> k < ?n"
    using dispatchAll_ids [of config d reqs w] by blast
  from srt rng have "sorted_wrt (\<lambda>i j. ''msg_'' @ nthUlid clock i < ''msg_'' @ nthUlid clock j) ks"
    by (rule_tac sorted_wrt_mono_rel [where P = "(<)"]) (auto simp add: mono)
  with ids gen have strict: "sorted_wrt (<) ?ids"
    by (simp add: sorted_wrt_map)
  then have "sorted ?ids" and "distinct ?ids"
    by (simp_all add: strict_sorted_iff)
  with strict mono show ?thesis
    by (simp add: sorted_sort_id)
qed

lemma example_ulids:
  "nthUlid backwardClock 0 = ''00000000070000000000000000''"
  "nthUlid backwardClock (Suc 0) = ''00000000070000000000000001''"
  by code_simp+

lemma example_messageIds:
  "messageIds (fst (dispatchAll exampleConfig (tickingDeps backwardClock) exampleRequests emptyWorld)) =
     [''msg_00000000070000000000000000'', ''msg_00000000070000000000000001'']"
  using example_ulids
  by (simp add: exampleRequests_def tickingDeps_def eval_defs)

theorem messageIds_increasing_witness:
  "generateMessageId (tickingDeps backwardClock) = nthUlid backwardClock \<and>
   generated emptyWorld + length exampleRequests < 32 ^ 16 \<and>
   backwardClock 0 < 32 ^ 10 \<and> backwardClock 1 < 32 ^ 10 \<and>
   messageIds (fst (dispatchAll exampleConfig (tickingDeps backwardClock) exampleRequests
     emptyWorld)) =
     [''msg_00000000070000000000000000'', ''msg_00000000070000000000000001''] \<and>
   ''msg_'' @ nthUlid backwardClock 0 < ''msg_'' @ nthUlid backwardClock 1 \<and>
   sorted_wrt (<) [''msg_00000000070000000000000000'', ''msg_00000000070000000000000001''] \<and>
   distinct [''msg_00000000070000000000000000'', ''msg_00000000070000000000000001''] \<and>
   sort [''msg_00000000070000000000000000'', ''msg_00000000070000000000000001''] =
     [''msg_00000000070000000000000000'', ''msg_00000000070000000000000001'']"
proof -
  let ?d = "tickingDeps backwardClock"
  have gen: "generateMessageId ?d = nthUlid backwardClock"
    by (simp add: tickingDeps_def)
  have len: "generated emptyWorld + length exampleRequests = 2"
    by (simp add: emptyWorld_def exampleRequests_def)
  then have calls: "generated emptyWorld + length exampleRequests < 32 ^ 16"
    by simp
  have time: "\<forall>k. k < generated emptyWorld + length exampleRequests \<longrightarrow>
      backwardClock k < 32 ^ 10"
    by (simp add: backwardClock_def)
  have clock: "backwardClock 0 < 32 ^ 10" "backwardClock 1 < 32 ^ 10"
    by (simp_all add: backwardClock_def)
  note ordered = messageIds_increasing [OF gen calls time, of exampleConfig]
  from ordered len have "''msg_'' @ nthUlid backwardClock 0 < ''msg_'' @ nthUlid backwardClock 1"
    by simp
  with ordered gen calls clock show ?thesis
    unfolding example_messageIds by simp
qed

end
